theory Spec2Isabelle
  imports Complex_Main "HOL-Library.AList" "HOL-Library.Sublist"
begin

section \<open>ECMAScript values used by the table engine\<close>

text \<open>
  Cells, condition operands and \<open>set\<close> values are the primitives the tool schema admits
  (string, number, boolean, null) together with \<open>undefined\<close>, which a property read of a
  missing key produces.  Numbers are kept exact: a rational, or one of NaN, +Infinity,
  -Infinity.  Rounding to binary64 is not part of the model, and \<open>-0\<close> is identified with
  \<open>0\<close> (the two are equal under every operation the engine applies).
\<close>

datatype jsnum = NaN | NegInf | Fin rat | PosInf

datatype jsval = JUndefined | JNull | JBool bool | JNum jsnum | JStr string

subsection \<open>Relational comparison of numbers\<close>

fun num_lt :: "jsnum \<Rightarrow> jsnum \<Rightarrow> bool" where
  "num_lt NaN _ = False"
| "num_lt _ NaN = False"
| "num_lt NegInf NegInf = False"
| "num_lt NegInf _ = True"
| "num_lt (Fin a) (Fin b) = (a < b)"
| "num_lt (Fin a) PosInf = True"
| "num_lt (Fin a) NegInf = False"
| "num_lt PosInf _ = False"

fun num_le :: "jsnum \<Rightarrow> jsnum \<Rightarrow> bool" where
  "num_le NaN _ = False"
| "num_le _ NaN = False"
| "num_le a b = (\<not> num_lt b a)"

definition num_gt :: "jsnum \<Rightarrow> jsnum \<Rightarrow> bool" where
  "num_gt a b = num_lt b a"

definition num_ge :: "jsnum \<Rightarrow> jsnum \<Rightarrow> bool" where
  "num_ge a b = num_le b a"

subsection \<open>Strict equality\<close>

text \<open>\<open>a === b\<close> on primitives: same type and same value, except that NaN equals nothing.\<close>

definition strictEq :: "jsval \<Rightarrow> jsval \<Rightarrow> bool" where
  "strictEq a b = (a = b \<and> a \<noteq> JNum NaN)"

subsection \<open>Number to string\<close>

definition digitChar :: "nat \<Rightarrow> char" where
  "digitChar d = ''0123456789'' ! (d mod 10)"

fun showNat :: "nat \<Rightarrow> string" where
  "showNat n = (if n < 10 then [digitChar n] else showNat (n div 10) @ [digitChar (n mod 10)])"

declare showNat.simps [simp del]

text \<open>
  The fractional digits of \<open>num / den\<close> (with \<open>num < den\<close>) by long division; the first
  argument bounds the number of digits, as a number has at most 17 significant ones.
\<close>

fun fracDigits :: "nat \<Rightarrow> nat \<Rightarrow> nat \<Rightarrow> string" where
  "fracDigits 0 num den = []"
| "fracDigits (Suc k) num den =
     (if num = 0 then []
      else digitChar ((10 * num) div den) # fracDigits k ((10 * num) mod den) den)"

definition showRat :: "rat \<Rightarrow> string" where
  "showRat q =
     (let (n, d) = quotient_of \<bar>q\<bar>;
          ip = nat (n div d);
          fr = fracDigits 17 (nat (n mod d)) (nat d)
      in (if q < 0 then ''-'' else '''') @ showNat ip @ (if fr = [] then [] else ''.'' @ fr))"

text \<open>
  \<open>Number::toString\<close>.  Exact on integers below \<open>10^21\<close> in magnitude and on decimals
  that need no exponent; the exponent notation of very large and very small numbers is
  not modelled.
\<close>

fun numberToString :: "jsnum \<Rightarrow> string" where
  "numberToString NaN = ''NaN''"
| "numberToString PosInf = ''Infinity''"
| "numberToString NegInf = ''-Infinity''"
| "numberToString (Fin q) = showRat q"

text \<open>\<open>String(v)\<close>.\<close>

fun String_js :: "jsval \<Rightarrow> string" where
  "String_js JUndefined = ''undefined''"
| "String_js JNull = ''null''"
| "String_js (JBool b) = (if b then ''true'' else ''false'')"
| "String_js (JNum n) = numberToString n"
| "String_js (JStr s) = s"

subsection \<open>String to number\<close>

definition isWhiteSpace :: "char \<Rightarrow> bool" where
  "isWhiteSpace c = (c \<in> set [CHR '' '', CHR 0x09, CHR 0x0A, CHR 0x0B, CHR 0x0C, CHR 0x0D])"

definition trim :: "string \<Rightarrow> string" where
  "trim s = rev (dropWhile isWhiteSpace (rev (dropWhile isWhiteSpace s)))"

text \<open>The value of a digit in the given base; hexadecimal letters in either case.\<close>

definition digitVal :: "nat \<Rightarrow> char \<Rightarrow> nat option" where
  "digitVal base c =
     (case map_of (zip ''0123456789abcdefABCDEF''
                       [0, 1, 2, 3, 4, 5, 6, 7, 8, 9, 10, 11, 12, 13, 14, 15, 10, 11, 12, 13, 14, 15]) c of
        None \<Rightarrow> None
      | Some d \<Rightarrow> if d < base then Some d else None)"

fun digitsVal :: "nat \<Rightarrow> nat \<Rightarrow> string \<Rightarrow> nat option" where
  "digitsVal base acc [] = Some acc"
| "digitsVal base acc (c # cs) =
     (case digitVal base c of None \<Rightarrow> None | Some d \<Rightarrow> digitsVal base (acc * base + d) cs)"

text \<open>One or more digits, as the grammar requires.\<close>

definition parseDigits :: "nat \<Rightarrow> string \<Rightarrow> nat option" where
  "parseDigits base s = (if s = [] then None else digitsVal base 0 s)"

text \<open>An optional sign followed by the rest.\<close>

definition splitSign :: "string \<Rightarrow> bool \<times> string" where
  "splitSign s =
     (case s of
        c # cs \<Rightarrow> if c = CHR ''-'' then (True, cs) else if c = CHR ''+'' then (False, cs) else (False, s)
      | [] \<Rightarrow> (False, s))"

definition isExpChar :: "char \<Rightarrow> bool" where
  "isExpChar c = (c = CHR ''e'' \<or> c = CHR ''E'')"

text \<open>The exponent part: empty when there is no \<open>e\<close>, otherwise \<open>e\<close>, a sign, digits.\<close>

definition parseExponent :: "string \<Rightarrow> int option" where
  "parseExponent s =
     (case s of
        [] \<Rightarrow> Some 0
      | _ # es \<Rightarrow>
          (let (neg, ds) = splitSign es
           in map_option (\<lambda>n. if neg then - int n else int n) (parseDigits 10 ds)))"

text \<open>
  The mantissa \<open>digits\<close>, \<open>digits.\<close>, \<open>digits.digits\<close> or \<open>.digits\<close>.
\<close>

definition parseMantissa :: "string \<Rightarrow> rat option" where
  "parseMantissa s =
     (let ip = takeWhile (\<lambda>c. c \<noteq> CHR ''.'') s;
          rest = dropWhile (\<lambda>c. c \<noteq> CHR ''.'') s;
          fp = (case rest of [] \<Rightarrow> [] | _ # f \<Rightarrow> f)
      in if ip = [] \<and> fp = [] then None
         else (case (digitsVal 10 0 ip, digitsVal 10 0 fp) of
                 (Some i, Some f) \<Rightarrow> Some (of_nat i + of_nat f / 10 ^ length fp)
               | _ \<Rightarrow> None))"

definition scale10 :: "rat \<Rightarrow> int \<Rightarrow> rat" where
  "scale10 q e = (if 0 \<le> e then q * 10 ^ nat e else q / 10 ^ nat (- e))"

definition parseDecimal :: "string \<Rightarrow> jsnum" where
  "parseDecimal s =
     (let (neg, body) = splitSign s
      in if body = ''Infinity'' then (if neg then NegInf else PosInf)
         else (case (parseMantissa (takeWhile (\<lambda>c. \<not> isExpChar c) body),
                     parseExponent (dropWhile (\<lambda>c. \<not> isExpChar c) body)) of
                 (Some m, Some e) \<Rightarrow> Fin (scale10 (if neg then - m else m) e)
               | _ \<Rightarrow> NaN))"

text \<open>
  \<open>StringToNumber\<close>: white space is trimmed, the empty string is 0, an unsigned
  \<open>0x\<close>, \<open>0o\<close> or \<open>0b\<close> literal is read in its base, anything else is a signed decimal
  literal or \<open>Infinity\<close>, and what fits none of these is NaN.  Only the ASCII white space
  characters are trimmed.
\<close>

definition radixOf :: "string \<Rightarrow> nat option" where
  "radixOf s =
     (case s of
        c # x # _ \<Rightarrow>
          if c \<noteq> CHR ''0'' then None
          else if x = CHR ''x'' \<or> x = CHR ''X'' then Some 16
          else if x = CHR ''o'' \<or> x = CHR ''O'' then Some 8
          else if x = CHR ''b'' \<or> x = CHR ''B'' then Some 2
          else None
      | _ \<Rightarrow> None)"

definition stringToNumber :: "string \<Rightarrow> jsnum" where
  "stringToNumber s =
     (let t = trim s
      in if t = [] then Fin 0
         else (case radixOf t of
                 Some b \<Rightarrow> (case parseDigits b (drop 2 t) of None \<Rightarrow> NaN | Some n \<Rightarrow> Fin (of_nat n))
               | None \<Rightarrow> parseDecimal t))"

text \<open>\<open>Number(v)\<close>.\<close>

fun Number_js :: "jsval \<Rightarrow> jsnum" where
  "Number_js JUndefined = NaN"
| "Number_js JNull = Fin 0"
| "Number_js (JBool b) = (if b then Fin 1 else Fin 0)"
| "Number_js (JNum n) = n"
| "Number_js (JStr s) = stringToNumber s"

subsection \<open>Strings: lower case and substring search\<close>

text \<open>\<open>toLowerCase\<close> on the ASCII letters; other characters are left as they are.\<close>

definition lowerChar :: "char \<Rightarrow> char" where
  "lowerChar c =
     (case map_of (zip ''ABCDEFGHIJKLMNOPQRSTUVWXYZ'' ''abcdefghijklmnopqrstuvwxyz'') c of
        None \<Rightarrow> c
      | Some d \<Rightarrow> d)"

definition toLowerCase :: "string \<Rightarrow> string" where
  "toLowerCase s = map lowerChar s"

text \<open>\<open>hay.includes(needle)\<close>: the needle occurs at some position of the haystack.\<close>

fun str_includes :: "string \<Rightarrow> string \<Rightarrow> bool" where
  "str_includes [] needle = (needle = [])"
| "str_includes (h # hay) needle = (prefix needle (h # hay) \<or> str_includes hay needle)"

section \<open>Objects\<close>

text \<open>
  A plain object is the list of its own properties in the order \<open>Object.keys\<close> and
  \<open>Object.entries\<close> enumerate them: array-index keys first, ascending, then the other
  keys in the order they were created.  Property names inherited from
  \<open>Object.prototype\<close> are outside the model: a column is never called \<open>toString\<close>,
  \<open>constructor\<close> or the like.
\<close>

type_synonym 'a obj = "(string \<times> 'a) list"

text \<open>The canonical decimal strings of the integers below \<open>2^32 - 1\<close> are array indices.\<close>

definition arrayIndex :: "string \<Rightarrow> nat option" where
  "arrayIndex k =
     (if k = ''0'' then Some 0
      else if k = [] \<or> hd k = CHR ''0'' then None
      else (case digitsVal 10 0 k of
              None \<Rightarrow> None
            | Some n \<Rightarrow> if n < 2 ^ 32 - 1 then Some n else None))"

text \<open>\<open>obj[k]\<close>: the own property, or \<open>undefined\<close>.\<close>

definition getProp :: "jsval obj \<Rightarrow> string \<Rightarrow> jsval" where
  "getProp ob k = (case map_of ob k of None \<Rightarrow> JUndefined | Some v \<Rightarrow> v)"

text \<open>Where a new array-index key goes: before the first key that is not a smaller index.\<close>

fun insertIndex :: "nat \<Rightarrow> string \<Rightarrow> 'a \<Rightarrow> 'a obj \<Rightarrow> 'a obj" where
  "insertIndex n k v [] = [(k, v)]"
| "insertIndex n k v (p # ps) =
     (case arrayIndex (fst p) of
        Some m \<Rightarrow> if m < n then p # insertIndex n k v ps else (k, v) # p # ps
      | None \<Rightarrow> (k, v) # p # ps)"

text \<open>\<open>obj[k] = v\<close>: an existing property keeps its place, a new one is created.\<close>

definition setProp :: "string \<Rightarrow> 'a \<Rightarrow> 'a obj \<Rightarrow> 'a obj" where
  "setProp k v ob =
     (if k \<in> fst ` set ob then AList.update k v ob
      else (case arrayIndex k of
              Some n \<Rightarrow> insertIndex n k v ob
            | None \<Rightarrow> ob @ [(k, v)]))"

section \<open>Conditions and the matcher\<close>

text \<open>
  A where-condition maps a column to a literal or to an \<open>{op, value}\<close> pair; it is kept as
  the list \<open>Object.entries(where)\<close>.  The operator is the string the caller sent.
\<close>

datatype condition = Lit jsval | OpCond string jsval

type_synonym whereCondition = "(string \<times> condition) list"

datatype error = UnknownOperator string | ColumnNotFound string "string list"

fun matchesCondition :: "jsval obj \<Rightarrow> whereCondition \<Rightarrow> error + bool" where
  "matchesCondition row [] = Inr True"
| "matchesCondition row ((column, Lit c) # rest) =
     (if \<not> strictEq (getProp row column) c then Inr False else matchesCondition row rest)"
| "matchesCondition row ((column, OpCond op condValue) # rest) =
     (let v = getProp row column in
      if op = ''contains'' then
        (if \<not> str_includes (toLowerCase (String_js v)) (toLowerCase (String_js condValue))
         then Inr False else matchesCondition row rest)
      else if op = ''gt'' then
        (if \<not> num_gt (Number_js v) (Number_js condValue) then Inr False
         else matchesCondition row rest)
      else if op = ''gte'' then
        (if \<not> num_ge (Number_js v) (Number_js condValue) then Inr False
         else matchesCondition row rest)
      else if op = ''lt'' then
        (if \<not> num_lt (Number_js v) (Number_js condValue) then Inr False
         else matchesCondition row rest)
      else if op = ''lte'' then
        (if \<not> num_le (Number_js v) (Number_js condValue) then Inr False
         else matchesCondition row rest)
      else if op = ''ne'' then
        (if strictEq v condValue then Inr False else matchesCondition row rest)
      else Inl (UnknownOperator op))"

section \<open>Tables\<close>

text \<open>
  Reading the workbook and writing it back are the work of the spreadsheet library; the
  operations below start from what \<open>sheet_to_json\<close> returned (the sheet as an array of
  arrays) or from the table \<open>sheetToTable\<close> made of it, and end with the array of arrays
  handed to \<open>aoa_to_sheet\<close>.
\<close>

record table =
  headers :: "string list"
  rows :: "jsval obj list"

text \<open>\<open>a ?? b\<close>\<close>

definition nullish :: "jsval \<Rightarrow> jsval \<Rightarrow> jsval" where
  "nullish a b = (if a = JNull \<or> a = JUndefined then b else a)"

text \<open>\<open>r?.[j]\<close> on an array that exists: out of range reads give \<open>undefined\<close>.\<close>

definition cellAt :: "jsval list \<Rightarrow> nat \<Rightarrow> jsval" where
  "cellAt r j = (if j < length r then r ! j else JUndefined)"

definition headerName :: "nat \<Rightarrow> jsval \<Rightarrow> string" where
  "headerName i h =
     (if h \<noteq> JNull \<and> h \<noteq> JUndefined then String_js h else ''Column'' @ showNat (i + 1))"

definition buildRow :: "string list \<Rightarrow> jsval list \<Rightarrow> jsval obj" where
  "buildRow hs r =
     fold (\<lambda>j row. setProp (hs ! j) (nullish (cellAt r j) JNull) row) [0..<length hs] []"

definition sheetToTable :: "jsval list list \<Rightarrow> table" where
  "sheetToTable aoa =
     (case aoa of
        [] \<Rightarrow> \<lparr>headers = [], rows = []\<rparr>
      | first # rest \<Rightarrow>
          (let hs = map (\<lambda>(i, h). headerName i h) (enumerate 0 first)
           in \<lparr>headers = hs, rows = map (buildRow hs) rest\<rparr>))"

subsection \<open>Projection and pagination\<close>

definition filterColumns :: "jsval obj list \<Rightarrow> string list \<Rightarrow> jsval obj list" where
  "filterColumns rs cols =
     map (\<lambda>row. fold (\<lambda>col filtered. setProp col (getProp row col) filtered) cols []) rs"

text \<open>
  \<open>Array.prototype.slice\<close> with integer arguments: a negative bound counts from the end,
  and both bounds are then cut to the array.
\<close>

definition slice :: "'a list \<Rightarrow> int \<Rightarrow> int \<Rightarrow> 'a list" where
  "slice xs start fin =
     (let len = int (length xs);
          k = (if start < 0 then max (len + start) 0 else min start len);
          final = (if fin < 0 then max (len + fin) 0 else min fin len)
      in take (nat (final - k)) (drop (nat k) xs))"

text \<open>
  \<open>limit\<close> and \<open>offset\<close> are optional integers; a missing one is \<open>None\<close>.  Both
  \<open>offset || 0\<close> and \<open>limit ? \<dots> : \<dots>\<close> test truthiness, so 0 goes the way of a missing
  argument.
\<close>

definition paginate :: "'a list \<Rightarrow> int option \<Rightarrow> int option \<Rightarrow> 'a list \<times> bool" where
  "paginate items limit offset =
     (let start = (case offset of None \<Rightarrow> 0 | Some off \<Rightarrow> if off \<noteq> 0 then off else 0);
          fin = (case limit of
                   None \<Rightarrow> int (length items)
                 | Some l \<Rightarrow> if l \<noteq> 0 then start + l else int (length items))
      in (slice items start fin, fin < int (length items)))"

subsection \<open>Queries\<close>

text \<open>\<open>rows.filter\<close> with the matcher; an exception of the matcher ends the filter.\<close>

fun findRows :: "jsval obj list \<Rightarrow> whereCondition \<Rightarrow> error + jsval obj list" where
  "findRows [] w = Inr []"
| "findRows (row # rs) w =
     (case matchesCondition row w of
        Inl e \<Rightarrow> Inl e
      | Inr m \<Rightarrow> (case findRows rs w of
                   Inl e \<Rightarrow> Inl e
                 | Inr found \<Rightarrow> Inr (if m then row # found else found)))"

record findOptions =
  columns :: "string list option"
  limit :: "int option"
  offset :: "int option"

record findResult =
  fr_rows :: "jsval obj list"
  fr_count :: nat
  totalMatches :: nat
  hasMore :: bool

definition findTableRows :: "table \<Rightarrow> whereCondition \<Rightarrow> findOptions \<Rightarrow> error + findResult" where
  "findTableRows t w opts =
     (case findRows (rows t) w of
        Inl e \<Rightarrow> Inl e
      | Inr matched \<Rightarrow>
          (let filteredRows = (case columns opts of
                                 None \<Rightarrow> matched
                               | Some cols \<Rightarrow> if length cols > 0 then filterColumns matched cols
                                             else matched);
               (items, more) = paginate filteredRows (limit opts) (offset opts)
           in Inr \<lparr>fr_rows = items, fr_count = length items,
                   totalMatches = length matched, hasMore = more\<rparr>))"

section \<open>Mutations\<close>

text \<open>
  Every mutation returns the rows as they stand in memory when the sheet is rebuilt, the
  array of arrays that is written (header line first), and its statistics.
\<close>

record 's written =
  rowsAfter :: "jsval obj list"
  newAoa :: "jsval list list"
  stats :: 's

record updateStats =
  updatedCount :: nat

record batchStats = updateStats +
  details :: "(whereCondition \<times> nat) list"

record addStats =
  addedCount :: nat
  totalRows :: nat

record deleteStats =
  deletedCount :: nat
  remainingRows :: nat

text \<open>\<open>for (const [col, val] of Object.entries(set)) row[col] = val\<close>\<close>

definition applySet :: "jsval obj \<Rightarrow> jsval obj \<Rightarrow> jsval obj" where
  "applySet st row = fold (\<lambda>(col, val) r. setProp col val r) st row"

text \<open>
  One pass over the rows: a row that matches gets the \<open>set\<close> values and is counted.  The
  rows are separate objects, so the pass is a map that also counts; the first exception
  of the matcher ends it.
\<close>

fun updateLoop :: "jsval obj list \<Rightarrow> whereCondition \<Rightarrow> jsval obj \<Rightarrow> error + (jsval obj list \<times> nat)" where
  "updateLoop [] w st = Inr ([], 0)"
| "updateLoop (row # rs) w st =
     (case matchesCondition row w of
        Inl e \<Rightarrow> Inl e
      | Inr m \<Rightarrow> (case updateLoop rs w st of
                   Inl e \<Rightarrow> Inl e
                 | Inr (rs', n) \<Rightarrow> Inr ((if m then applySet st row else row) # rs',
                                         (if m then n + 1 else n))))"

text \<open>\<open>[headers, ...rows.map(row => headers.map(h => row[h]))]\<close>\<close>

definition toAoa :: "string list \<Rightarrow> jsval obj list \<Rightarrow> jsval list list" where
  "toAoa hs rs = map JStr hs # map (\<lambda>row. map (\<lambda>h. getProp row h) hs) rs"

definition updateTableRows :: "table \<Rightarrow> whereCondition \<Rightarrow> jsval obj \<Rightarrow> error + updateStats written" where
  "updateTableRows t w st =
     (case updateLoop (rows t) w st of
        Inl e \<Rightarrow> Inl e
      | Inr (rs', n) \<Rightarrow>
          Inr \<lparr>rowsAfter = rs', newAoa = toAoa (headers t) rs', stats = \<lparr>updatedCount = n\<rparr>\<rparr>)"

text \<open>A \<open>Set\<close> in insertion order.\<close>

definition setAdd :: "'a \<Rightarrow> 'a list \<Rightarrow> 'a list" where
  "setAdd k s = (if k \<in> set s then s else s @ [k])"

definition newSet :: "'a list \<Rightarrow> 'a list" where
  "newSet ks = fold setAdd ks []"

text \<open>The argument of \<open>addTableRows\<close> is one row or an array of rows.\<close>

datatype rowsArg = OneRow "jsval obj" | ManyRows "jsval obj list"

definition addTableRows :: "table \<Rightarrow> rowsArg \<Rightarrow> addStats written" where
  "addTableRows t newRows =
     (let rowsToAdd = (case newRows of ManyRows rs \<Rightarrow> rs | OneRow r \<Rightarrow> [r]);
          allHeaders = fold (\<lambda>row s. fold setAdd (map fst row) s) rowsToAdd (newSet (headers t));
          finalHeaders = allHeaders;
          rs = rows t @ rowsToAdd
      in \<lparr>rowsAfter = rs,
          newAoa = map JStr finalHeaders
                   # map (\<lambda>row. map (\<lambda>h. nullish (getProp row h) JNull) finalHeaders) rs,
          stats = \<lparr>addedCount = length rowsToAdd, totalRows = length rs\<rparr>\<rparr>)"

text \<open>\<open>rows.filter(row => !matchesCondition(row, where))\<close>\<close>

fun keepRows :: "jsval obj list \<Rightarrow> whereCondition \<Rightarrow> error + jsval obj list" where
  "keepRows [] w = Inr []"
| "keepRows (row # rs) w =
     (case matchesCondition row w of
        Inl e \<Rightarrow> Inl e
      | Inr m \<Rightarrow> (case keepRows rs w of
                   Inl e \<Rightarrow> Inl e
                 | Inr kept \<Rightarrow> Inr (if \<not> m then row # kept else kept)))"

definition deleteTableRows :: "table \<Rightarrow> whereCondition \<Rightarrow> error + deleteStats written" where
  "deleteTableRows t w =
     (case keepRows (rows t) w of
        Inl e \<Rightarrow> Inl e
      | Inr remaining \<Rightarrow>
          Inr \<lparr>rowsAfter = remaining, newAoa = toAoa (headers t) remaining,
               stats = \<lparr>deletedCount = length (rows t) - length remaining,
                        remainingRows = length remaining\<rparr>\<rparr>)"



section \<open>The cell-addressed write path\<close>

text \<open>
  The AppleScript variants read the same table but do not touch the rows: they turn the
  matches into cell assignments, addressed by row number (the header is row 1) and by
  the 1-based position of the column among the headers.  Running the script is outside
  the model; the assignments and the statistics are its input and the result.
\<close>

record cellUpdate =
  rowIndex :: nat
  colIndex :: nat
  cellValue :: jsval

text \<open>\<open>headers.indexOf(col)\<close>, with \<open>None\<close> for \<open>-1\<close>.\<close>

fun indexOf :: "string list \<Rightarrow> string \<Rightarrow> nat option" where
  "indexOf [] x = None"
| "indexOf (y # ys) x = (if y = x then Some 0 else map_option Suc (indexOf ys x))"

fun colIndicesOf :: "string list \<Rightarrow> string list \<Rightarrow> error + (string \<times> nat) list" where
  "colIndicesOf hs [] = Inr []"
| "colIndicesOf hs (col # cols) =
     (case indexOf hs col of
        None \<Rightarrow> Inl (ColumnNotFound col hs)
      | Some idx \<Rightarrow> (case colIndicesOf hs cols of
                      Inl e \<Rightarrow> Inl e
                    | Inr ci \<Rightarrow> Inr ((col, idx + 1) # ci)))"

text \<open>
  The pass from row \<open>i\<close> on: the assignments of the matching rows, and how many rows
  matched.  Every column of \<open>set\<close> has an index by then.
\<close>

fun cellPass ::
  "nat \<Rightarrow> jsval obj list \<Rightarrow> whereCondition \<Rightarrow> jsval obj \<Rightarrow> (string \<times> nat) list
     \<Rightarrow> error + (cellUpdate list \<times> nat)" where
  "cellPass i [] w st ci = Inr ([], 0)"
| "cellPass i (row # rs) w st ci =
     (case matchesCondition row w of
        Inl e \<Rightarrow> Inl e
      | Inr m \<Rightarrow>
          (case cellPass (i + 1) rs w st ci of
             Inl e \<Rightarrow> Inl e
           | Inr (us, n) \<Rightarrow>
               if m then
                 Inr (map (\<lambda>(col, v). \<lparr>rowIndex = i + 2,
                                         colIndex = (case map_of ci col of Some c \<Rightarrow> c | None \<Rightarrow> 0),
                                         cellValue = v\<rparr>) st @ us, n + 1)
               else Inr (us, n)))"

definition updateRowsViaAppleScript ::
  "table \<Rightarrow> whereCondition \<Rightarrow> jsval obj \<Rightarrow> error + (cellUpdate list \<times> updateStats)" where
  "updateRowsViaAppleScript t w st =
     (case colIndicesOf (headers t) (map fst st) of
        Inl e \<Rightarrow> Inl e
      | Inr ci \<Rightarrow>
          (case cellPass 0 (rows t) w st ci of
             Inl e \<Rightarrow> Inl e
           | Inr (updates, n) \<Rightarrow>
               if length updates = 0 then Inr ([], \<lparr>updatedCount = 0\<rparr>)
               else Inr (updates, \<lparr>updatedCount = length updates div length st\<rparr>)))"

fun cellBatch ::
  "(whereCondition \<times> jsval obj) list \<Rightarrow> jsval obj list \<Rightarrow> (string \<times> nat) list
     \<Rightarrow> cellUpdate list \<Rightarrow> nat \<Rightarrow> (whereCondition \<times> nat) list
     \<Rightarrow> error + (cellUpdate list \<times> nat \<times> (whereCondition \<times> nat) list)" where
  "cellBatch [] rs ci cellUpdates totalUpdated ds = Inr (cellUpdates, totalUpdated, ds)"
| "cellBatch ((w, st) # updatesList) rs ci cellUpdates totalUpdated ds =
     (case cellPass 0 rs w st ci of
        Inl e \<Rightarrow> Inl e
      | Inr (us, matched) \<Rightarrow>
          cellBatch updatesList rs ci (cellUpdates @ us) (totalUpdated + matched)
            (ds @ [(w, matched)]))"

definition batchUpdateRowsViaAppleScript ::
  "table \<Rightarrow> (whereCondition \<times> jsval obj) list \<Rightarrow> error + (cellUpdate list \<times> batchStats)" where
  "batchUpdateRowsViaAppleScript t updatesList =
     (let allCols = fold (\<lambda>(w, st) s. fold setAdd (map fst st) s) updatesList []
      in case colIndicesOf (headers t) allCols of
           Inl e \<Rightarrow> Inl e
         | Inr ci \<Rightarrow>
             (case cellBatch updatesList (rows t) ci [] 0 [] of
                Inl e \<Rightarrow> Inl e
              | Inr (cellUpdates, totalUpdated, ds) \<Rightarrow>
                  Inr (cellUpdates, \<lparr>updatedCount = totalUpdated, details = ds\<rparr>)))"

section \<open>Color inference\<close>

text \<open>
  A row color is three integer channels (\<open>getRowColors\<close> rounds each to an integer) or
  null.  The colors of the rows come from the running application and are an argument
  here.
\<close>

datatype RGBColor = RGBColor (ch_r: int) (ch_g: int) (ch_b: int)







text \<open>\<open>String(row[column] ?? "")\<close>\<close>

definition cellString :: "string \<Rightarrow> jsval obj \<Rightarrow> string" where
  "cellString column row = String_js (nullish (getProp row column) (JStr []))"







section \<open>Notions the properties are stated with\<close>

text \<open>
  The operators the \<open>WhereCondition\<close> type and the tool schema admit.  A condition made
  of them never reaches the \<open>default\<close> branch of the matcher.
\<close>

definition knownOperator :: "string \<Rightarrow> bool" where
  "knownOperator op = (op \<in> set [''contains'', ''gt'', ''lt'', ''gte'', ''lte'', ''ne''])"

fun wellTyped :: "whereCondition \<Rightarrow> bool" where
  "wellTyped [] = True"
| "wellTyped ((column, Lit c) # rest) = wellTyped rest"
| "wellTyped ((column, OpCond op condValue) # rest) = (knownOperator op \<and> wellTyped rest)"

text \<open>The row matches: the matcher returns, and returns true.\<close>

definition matches :: "jsval obj \<Rightarrow> whereCondition \<Rightarrow> bool" where
  "matches row w = (matchesCondition row w = Inr True)"

text \<open>The names of a list in the order they are first met, each once.\<close>

fun firstSeen :: "'a list \<Rightarrow> 'a list" where
  "firstSeen [] = []"
| "firstSeen (x # xs) = x # firstSeen (removeAll x xs)"

text \<open>The rows an insert adds, and their keys in the order they are met.\<close>

definition insertedRows :: "rowsArg \<Rightarrow> jsval obj list" where
  "insertedRows newRows = (case newRows of OneRow r \<Rightarrow> [r] | ManyRows rs \<Rightarrow> rs)"

definition insertedKeys :: "rowsArg \<Rightarrow> string list" where
  "insertedKeys newRows = concat (map (map fst) (insertedRows newRows))"

subsection \<open>A batch as a fold\<close>

text \<open>
  One pair applied to a list of rows: the rows that match get the values of \<open>set\<close>, the
  others stay.  A batch is the left fold of this step over the pairs, and the count of a
  pair is taken on the rows the pairs before it produced.
\<close>

definition applyPair :: "jsval obj list \<Rightarrow> whereCondition \<times> jsval obj \<Rightarrow> jsval obj list" where
  "applyPair rs p = map (\<lambda>row. if matches row (fst p) then applySet (snd p) row else row) rs"

definition matchedCount :: "jsval obj list \<Rightarrow> whereCondition \<Rightarrow> nat" where
  "matchedCount rs w = length (filter (\<lambda>row. matches row w) rs)"


subsection \<open>Color inference, as the specification words it\<close>



text \<open>Each channel rounded to the nearest multiple of 10 (5 rounds up).\<close>

definition quantize :: "RGBColor \<Rightarrow> int \<times> int \<times> int" where
  "quantize c = (((ch_r c + 5) div 10) * 10, ((ch_g c + 5) div 10) * 10, ((ch_b c + 5) div 10) * 10)"

text \<open>The size of the bucket a color falls into, among the colors \<open>cols\<close>.\<close>

definition bucketCount :: "RGBColor list \<Rightarrow> RGBColor \<Rightarrow> nat" where
  "bucketCount cols c = length (filter (\<lambda>c'. quantize c' = quantize c) cols)"

text \<open>
  The dominant color: the first color, in the order seen, whose bucket is a largest one.
  It is the first-seen color of the first-met bucket of maximal size; there is none when
  there are no colors.
\<close>

definition dominantOf :: "RGBColor list \<Rightarrow> RGBColor option" where
  "dominantOf cols = find (\<lambda>c. \<forall>c' \<in> set cols. bucketCount cols c' \<le> bucketCount cols c) cols"





subsection \<open>The histogram of the code, read as a list of buckets\<close>

text \<open>The colors that open a bucket, in the order they are seen.\<close>

definition bucketFirsts :: "RGBColor list \<Rightarrow> RGBColor list" where
  "bucketFirsts cols =
     fold (\<lambda>c acc. if quantize c \<in> quantize ` set acc then acc else acc @ [c]) cols []"


section \<open>Basic facts\<close>

subsection \<open>Numbers and strings\<close>

lemma num_lt_NaN_right [simp]: "num_lt a NaN = False"
  by (cases a) simp_all

lemma num_le_NaN_right [simp]: "num_le a NaN = False"
  by (cases a) simp_all

lemma num_gt_NaN [simp]: "num_gt NaN b = False" "num_gt a NaN = False"
  by (simp_all add: num_gt_def)

lemma num_ge_NaN [simp]: "num_ge NaN b = False" "num_ge a NaN = False"
  by (simp_all add: num_ge_def)


lemma find_SomeD: "find P xs = Some x \<Longrightarrow> P x \<and> x \<in> set xs"
  by (induction xs) (auto split: if_splits)

subsection \<open>Property reads and writes\<close>

lemma getProp_absent: "c \<notin> fst ` set row \<Longrightarrow> getProp row c = JUndefined"
  by (simp add: getProp_def map_of_eq_None_iff [THEN iffD2])

lemma getProp_present: "map_of row c = Some v \<Longrightarrow> getProp row c = v"
  by (simp add: getProp_def)

lemma map_of_insertIndex:
  "k \<notin> fst ` set ob \<Longrightarrow> map_of (insertIndex n k v ob) = (map_of ob)(k \<mapsto> v)"
  by (induction ob) (auto split: option.splits)


lemma map_of_setProp: "map_of (setProp k v ob) = (map_of ob)(k \<mapsto> v)"
proof (cases "k \<in> fst ` set ob")
  case True
  then show ?thesis by (simp add: setProp_def update_conv')
next
  case False
  then have "map_of ob k = None" by (simp add: map_of_eq_None_iff)
  then have "map_of (ob @ [(k, v)]) = (map_of ob)(k \<mapsto> v)"
    by (auto simp: map_add_def fun_eq_iff split: option.splits)
  with False show ?thesis
    by (simp add: setProp_def map_of_insertIndex split: option.splits)
qed


lemma getProp_setProp: "getProp (setProp k v ob) c = (if c = k then v else getProp ob c)"
  by (simp add: getProp_def map_of_setProp)

subsection \<open>Loaded rows\<close>

lemma nullish_not_undefined: "nullish a JNull \<noteq> JUndefined"
  by (simp add: nullish_def)

text \<open>A loaded row holds, under a header, the cell of the last column with that name.\<close>

lemma buildRow_fold_lookup:
  "map_of (fold (\<lambda>j row. setProp (hs ! j) (nullish (cellAt r j) JNull) row) js ob) h
     = (case find (\<lambda>j. hs ! j = h) (rev js) of
          None \<Rightarrow> map_of ob h
        | Some j \<Rightarrow> Some (nullish (cellAt r j) JNull))"
proof (induction js arbitrary: ob rule: rev_induct)
  case Nil
  then show ?case by simp
next
  case (snoc j js)
  then show ?case by (simp add: map_of_setProp)
qed

lemma buildRow_lookup:
  "map_of (buildRow hs r) h
     = (case find (\<lambda>j. hs ! j = h) (rev [0..<length hs]) of
          None \<Rightarrow> None
        | Some j \<Rightarrow> Some (nullish (cellAt r j) JNull))"
  by (simp add: buildRow_def buildRow_fold_lookup split: option.splits)

lemma buildRow_header_present:
  assumes "h \<in> set hs"
  shows "\<exists>v. map_of (buildRow hs r) h = Some v \<and> v \<noteq> JUndefined"
proof -
  from assms obtain j where "j < length hs" "hs ! j = h"
    by (auto simp: in_set_conv_nth)
  then have "find (\<lambda>j. hs ! j = h) (rev [0..<length hs]) \<noteq> None"
    by (auto simp: find_None_iff)
  then show ?thesis
    by (auto simp: buildRow_lookup nullish_not_undefined)
qed

lemma buildRow_distinct_cell:
  assumes "distinct hs" "j < length hs"
  shows "map_of (buildRow hs r) (hs ! j) = Some (nullish (cellAt r j) JNull)"
proof -
  have "find (\<lambda>i. hs ! i = hs ! j) (rev [0..<length hs]) \<noteq> None"
    using assms(2) by (auto simp: find_None_iff)
  then obtain i where i: "find (\<lambda>i. hs ! i = hs ! j) (rev [0..<length hs]) = Some i"
    by blast
  then have "hs ! i = hs ! j" "i \<in> set (rev [0..<length hs])"
    by (auto dest: find_SomeD)
  with assms have "i = j"
    by (simp add: nth_eq_iff_index_eq)
  with i show ?thesis
    by (simp add: buildRow_lookup)
qed

lemma sheetToTable_rows:
  "row \<in> set (rows (sheetToTable aoa)) \<Longrightarrow> \<exists>r. row = buildRow (headers (sheetToTable aoa)) r"
  by (auto simp: sheetToTable_def Let_def split: list.splits)

section \<open>Properties of the condition matcher\<close>

text \<open>
  C3, as the code has it.  The literal condition \<open>{c: null}\<close> is a strict comparison of
  \<open>row[c]\<close> with \<open>null\<close>: the clause passes exactly when the cell read is \<open>null\<close>.  A row
  that carries an explicit null at \<open>c\<close> matches; a row without the key \<open>c\<close> reads
  \<open>undefined\<close> there and does not match.
\<close>

theorem null_literal_needs_explicit_null:
  "matchesCondition row ((c, Lit JNull) # rest)
     = (if getProp row c = JNull then matchesCondition row rest else Inr False)
   \<and> (map_of row c = Some JNull \<longrightarrow> matchesCondition row [(c, Lit JNull)] = Inr True)
   \<and> (c \<notin> fst ` set row \<longrightarrow> matchesCondition row [(c, Lit JNull)] = Inr False)"
  by (auto simp: strictEq_def getProp_absent getProp_present)

theorem null_literal_needs_explicit_null_witness:
  "matchesCondition [(''id'', JNum (Fin 1)), (''note'', JNull)] [(''note'', Lit JNull)] = Inr True
   \<and> matchesCondition [(''id'', JNum (Fin 1))] [(''note'', Lit JNull)] = Inr False"
proof -
  have a: "map_of [(''id'', JNum (Fin 1)), (''note'', JNull)] ''note'' = Some JNull"
    by simp
  have b: "''note'' \<notin> fst ` set [(''id'', JNum (Fin 1))]"
    by simp
  from a null_literal_needs_explicit_null
         [of "[(''id'', JNum (Fin 1)), (''note'', JNull)]" "''note''" "[]"]
  have "matchesCondition [(''id'', JNum (Fin 1)), (''note'', JNull)] [(''note'', Lit JNull)]
          = Inr True"
    by blast
  moreover from b null_literal_needs_explicit_null [of "[(''id'', JNum (Fin 1))]" "''note''" "[]"]
  have "matchesCondition [(''id'', JNum (Fin 1))] [(''note'', Lit JNull)] = Inr False"
    by blast
  ultimately show ?thesis by blast
qed

text \<open>
  C3 as stated fails: the row \<open>{id: 1}\<close> has no key \<open>note\<close>, and \<open>{note: null}\<close> does not
  match it.
\<close>

theorem null_literal_absent_counterexample:
  "''note'' \<notin> fst ` set [(''id'', JNum (Fin 1))]
   \<and> matchesCondition [(''id'', JNum (Fin 1))] [(''note'', Lit JNull)] \<noteq> Inr True"
  by (simp add: strictEq_def getProp_def)

text \<open>
  C7.  A \<open>gt\<close>, \<open>gte\<close>, \<open>lt\<close> or \<open>lte\<close> clause coerces the cell and the operand with
  \<open>Number\<close> and compares; it never raises.  When either coercion is NaN the clause is
  false: the matcher answers false, and the filter leaves the row out.
\<close>

theorem numeric_clause_total:
  "matchesCondition row ((c, OpCond ''gt'' v) # rest)
     = (if num_gt (Number_js (getProp row c)) (Number_js v)
        then matchesCondition row rest else Inr False)
   \<and> matchesCondition row ((c, OpCond ''gte'' v) # rest)
     = (if num_ge (Number_js (getProp row c)) (Number_js v)
        then matchesCondition row rest else Inr False)
   \<and> matchesCondition row ((c, OpCond ''lt'' v) # rest)
     = (if num_lt (Number_js (getProp row c)) (Number_js v)
        then matchesCondition row rest else Inr False)
   \<and> matchesCondition row ((c, OpCond ''lte'' v) # rest)
     = (if num_le (Number_js (getProp row c)) (Number_js v)
        then matchesCondition row rest else Inr False)
   \<and> (op \<in> {''gt'', ''gte'', ''lt'', ''lte''}
        \<and> (Number_js (getProp row c) = NaN \<or> Number_js v = NaN)
        \<longrightarrow> matchesCondition row ((c, OpCond op v) # rest) = Inr False
            \<and> findRows [row] ((c, OpCond op v) # rest) = Inr [])"
  by auto

theorem numeric_clause_total_witness:
  "Number_js (getProp [(''price'', JStr ''n/a'')] ''price'') = NaN
   \<and> matchesCondition [(''price'', JStr ''n/a'')] [(''price'', OpCond ''lte'' (JNum (Fin 5)))]
       = Inr False
   \<and> findRows [[(''price'', JStr ''n/a'')]] [(''price'', OpCond ''lte'' (JNum (Fin 5)))] = Inr []"
proof -
  have n: "Number_js (getProp [(''price'', JStr ''n/a'')] ''price'') = NaN"
    by code_simp
  have "''lte'' \<in> {''gt'', ''gte'', ''lt'', ''lte''}"
    by simp
  with n numeric_clause_total
         [of "[(''price'', JStr ''n/a'')]" "''price''" "JNum (Fin 5)" "[]" "''lte''"]
  show ?thesis by blast
qed

text \<open>
  C10.  Under the four numeric operators an explicit null is the number 0 (so a null
  cell passes \<open>gt -1\<close>), while a key that is absent reads \<open>undefined\<close>, coerces to NaN and
  fails the clause.  A row built by \<open>sheetToTable\<close> has every header as a key with a
  value other than \<open>undefined\<close>, and an empty cell of a sheet with distinct headers is
  stored as an explicit null.
\<close>

theorem numeric_clause_null_versus_absent:
  "(map_of row c = Some JNull \<longrightarrow>
      matchesCondition row [(c, OpCond ''gt'' v)] = Inr (num_gt (Fin 0) (Number_js v))
    \<and> matchesCondition row [(c, OpCond ''gte'' v)] = Inr (num_ge (Fin 0) (Number_js v))
    \<and> matchesCondition row [(c, OpCond ''lt'' v)] = Inr (num_lt (Fin 0) (Number_js v))
    \<and> matchesCondition row [(c, OpCond ''lte'' v)] = Inr (num_le (Fin 0) (Number_js v))
    \<and> matchesCondition row [(c, OpCond ''gt'' (JNum (Fin (- 1))))] = Inr True)
   \<and> (c \<notin> fst ` set row \<and> op \<in> {''gt'', ''gte'', ''lt'', ''lte''} \<longrightarrow>
      Number_js (getProp row c) = NaN \<and> matchesCondition row [(c, OpCond op v)] = Inr False)
   \<and> (loaded \<in> set (rows (sheetToTable aoa)) \<and> h \<in> set (headers (sheetToTable aoa)) \<longrightarrow>
      (\<exists>x. map_of loaded h = Some x \<and> x \<noteq> JUndefined))
   \<and> (aoa = first # rest \<and> distinct (headers (sheetToTable aoa)) \<and> i < length rest
        \<and> j < length (headers (sheetToTable aoa)) \<and> cellAt (rest ! i) j \<in> {JNull, JUndefined} \<longrightarrow>
      map_of (rows (sheetToTable aoa) ! i) (headers (sheetToTable aoa) ! j) = Some JNull)"
proof (intro conjI impI)
  assume "loaded \<in> set (rows (sheetToTable aoa)) \<and> h \<in> set (headers (sheetToTable aoa))"
  then show "\<exists>x. map_of loaded h = Some x \<and> x \<noteq> JUndefined"
    using sheetToTable_rows buildRow_header_present by blast
next
  assume a: "aoa = first # rest \<and> distinct (headers (sheetToTable aoa)) \<and> i < length rest
        \<and> j < length (headers (sheetToTable aoa)) \<and> cellAt (rest ! i) j \<in> {JNull, JUndefined}"
  define hs where "hs = headers (sheetToTable aoa)"
  have r: "rows (sheetToTable aoa) ! i = buildRow hs (rest ! i)"
    using a by (simp add: sheetToTable_def Let_def hs_def)
  have n: "nullish (cellAt (rest ! i) j) JNull = JNull"
    using a by (auto simp: nullish_def)
  have "distinct hs" "j < length hs"
    using a unfolding hs_def by blast+
  then have "map_of (buildRow hs (rest ! i)) (hs ! j) = Some (nullish (cellAt (rest ! i) j) JNull)"
    by (rule buildRow_distinct_cell)
  with r n show "map_of (rows (sheetToTable aoa) ! i) (headers (sheetToTable aoa) ! j) = Some JNull"
    by (simp add: hs_def)
qed (auto simp: getProp_absent getProp_present num_gt_def num_ge_def)

theorem numeric_clause_null_versus_absent_witness:
  "matchesCondition [(''id'', JNum (Fin 1)), (''price'', JNull)]
       [(''price'', OpCond ''gt'' (JNum (Fin (- 1))))] = Inr True
   \<and> matchesCondition [(''id'', JNum (Fin 1))] [(''price'', OpCond ''gt'' (JNum (Fin (- 1))))]
       = Inr False
   \<and> map_of (rows (sheetToTable [[JStr ''id'', JStr ''price''], [JNum (Fin 1), JNull]]) ! 0)
        ''price'' = Some JNull"
proof -
  let ?aoa = "[[JStr ''id'', JStr ''price''], [JNum (Fin 1), JNull]]"
  have hs: "headers (sheetToTable ?aoa) = [''id'', ''price'']"
    by (simp add: sheetToTable_def headerName_def Let_def)
  have a: "map_of [(''id'', JNum (Fin 1)), (''price'', JNull)] ''price'' = Some JNull"
    by simp
  have b: "''price'' \<notin> fst ` set [(''id'', JNum (Fin 1))] \<and> ''gt'' \<in> {''gt'', ''gte'', ''lt'', ''lte''}"
    by simp
  have c: "?aoa = [JStr ''id'', JStr ''price''] # [[JNum (Fin 1), JNull]]
           \<and> distinct (headers (sheetToTable ?aoa)) \<and> 0 < length [[JNum (Fin 1), JNull]]
           \<and> 1 < length (headers (sheetToTable ?aoa))
           \<and> cellAt ([[JNum (Fin 1), JNull]] ! 0) 1 \<in> {JNull, JUndefined}"
    by (simp add: hs cellAt_def)
  have d: "headers (sheetToTable ?aoa) ! 1 = ''price''"
    by (simp add: hs)
  from a numeric_clause_null_versus_absent
         [where row = "[(''id'', JNum (Fin 1)), (''price'', JNull)]" and c = "''price''"]
  have 1: "matchesCondition [(''id'', JNum (Fin 1)), (''price'', JNull)]
             [(''price'', OpCond ''gt'' (JNum (Fin (- 1))))] = Inr True"
    by blast
  from b numeric_clause_null_versus_absent
         [where row = "[(''id'', JNum (Fin 1))]" and c = "''price''" and op = "''gt''"
            and v = "JNum (Fin (- 1))"]
  have 2: "matchesCondition [(''id'', JNum (Fin 1))] [(''price'', OpCond ''gt'' (JNum (Fin (- 1))))]
             = Inr False"
    by blast
  from c numeric_clause_null_versus_absent
         [where aoa = "?aoa" and first = "[JStr ''id'', JStr ''price'']"
            and rest = "[[JNum (Fin 1), JNull]]" and i = 0 and j = 1]
  have "map_of (rows (sheetToTable ?aoa) ! 0) (headers (sheetToTable ?aoa) ! 1) = Some JNull"
    by blast
  with d have 3: "map_of (rows (sheetToTable ?aoa) ! 0) ''price'' = Some JNull"
    by simp
  from 1 2 3 show ?thesis by blast
qed





section \<open>Properties of queries\<close>

subsection \<open>Slices and well-typed conditions\<close>

lemma slice_nonneg:
  "0 \<le> a \<Longrightarrow> 0 \<le> b \<Longrightarrow> slice xs a b = take (nat (b - a)) (drop (nat a) xs)"
  by (auto simp: slice_def Let_def min_def)

lemma slice_past_end: "int (length xs) \<le> a \<Longrightarrow> slice xs a b = []"
  by (auto simp: slice_def Let_def)

lemma matcher_step_returns:
  "knownOperator op \<Longrightarrow> \<exists>b. matchesCondition row rest = Inr b
     \<Longrightarrow> \<exists>b. matchesCondition row ((c, OpCond op v) # rest) = Inr b"
  unfolding knownOperator_def
  apply (simp only: set_simps insert_iff empty_iff)
  apply (elim disjE)
  apply (simp_all)
  apply blast+
  done

lemma wellTyped_matcher_returns: "wellTyped w \<Longrightarrow> \<exists>b. matchesCondition row w = Inr b"
proof (induction w rule: wellTyped.induct)
  case 1
  then show ?case by auto
next
  case (2 column c rest)
  then show ?case by auto
next
  case (3 column op condValue rest)
  then show ?case using matcher_step_returns by simp
qed

lemma findRows_returns:
  "wellTyped w \<Longrightarrow> \<exists>found. findRows rs w = Inr found \<and> length found \<le> length rs"
proof (induction rs)
  case Nil
  then show ?case by simp
next
  case (Cons row rs)
  from Cons.prems obtain b where "matchesCondition row w = Inr b"
    using wellTyped_matcher_returns by blast
  moreover from Cons obtain found where "findRows rs w = Inr found" "length found \<le> length rs"
    by blast
  ultimately show ?case by auto
qed

subsection \<open>Pagination\<close>

text \<open>
  C4, as the code has it.  Pagination has no error result.  An offset at or past the end
  of the list yields no rows, whatever the limit, and the query then returns no rows and
  a count of 0.  For an offset that is not negative, a positive limit \<open>l\<close> returns the
  rows from \<open>offset\<close> up to \<open>offset + l\<close>, cut at the end of the list, with
  \<open>hasMore = (offset + l < length)\<close>; without a limit all rows from the offset on are
  returned and \<open>hasMore\<close> is false.  A missing offset is offset 0.
\<close>

theorem paginate_windows:
  "(int (length items) \<le> off \<longrightarrow> fst (paginate items lmt (Some off)) = [])
   \<and> (0 \<le> off \<and> 0 < l \<longrightarrow>
        paginate items (Some l) (Some off)
          = (take (nat l) (drop (nat off) items), off + l < int (length items)))
   \<and> (0 \<le> off \<longrightarrow> paginate items None (Some off) = (drop (nat off) items, False))
   \<and> paginate items lmt None = paginate items lmt (Some 0)
   \<and> (wellTyped w \<and> int (length (rows t)) \<le> off \<longrightarrow>
        (\<exists>res. findTableRows t w \<lparr>columns = cols, limit = lmt, offset = Some off\<rparr> = Inr res
               \<and> fr_rows res = [] \<and> fr_count res = 0))"
proof (intro conjI impI)
  show "int (length items) \<le> off \<Longrightarrow> fst (paginate items lmt (Some off)) = []"
    by (auto simp: paginate_def Let_def slice_past_end split: option.splits)
  show "0 \<le> off \<and> 0 < l \<Longrightarrow> paginate items (Some l) (Some off)
          = (take (nat l) (drop (nat off) items), off + l < int (length items))"
    by (auto simp: paginate_def Let_def slice_nonneg)
  show "0 \<le> off \<Longrightarrow> paginate items None (Some off) = (drop (nat off) items, False)"
    by (auto simp: paginate_def Let_def slice_nonneg)
  show "paginate items lmt None = paginate items lmt (Some 0)"
    by (simp add: paginate_def)
next
  assume a: "wellTyped w \<and> int (length (rows t)) \<le> off"
  then obtain found where f: "findRows (rows t) w = Inr found" "length found \<le> length (rows t)"
    using findRows_returns by blast
  define filtered where "filtered = (case cols of None \<Rightarrow> found
      | Some cs \<Rightarrow> if length cs > 0 then filterColumns found cs else found)"
  have "length filtered = length found"
    by (auto simp: filtered_def filterColumns_def split: option.splits)
  with f a have "int (length filtered) \<le> off" by simp
  then have "fst (paginate filtered lmt (Some off)) = []"
    by (auto simp: paginate_def Let_def slice_past_end split: option.splits)
  then show "\<exists>res. findTableRows t w \<lparr>columns = cols, limit = lmt, offset = Some off\<rparr> = Inr res
               \<and> fr_rows res = [] \<and> fr_count res = 0"
    using f by (auto simp: findTableRows_def filtered_def Let_def split: prod.splits)
qed

theorem paginate_windows_witness:
  "fst (paginate [10, 20, 30 :: nat] (Some 2) (Some 7)) = []
   \<and> paginate [10, 20, 30 :: nat] (Some 2) (Some 1) = ([20, 30], False)
   \<and> paginate [10, 20, 30 :: nat] (Some 1) (Some 1) = ([20], True)
   \<and> paginate [10, 20, 30 :: nat] None (Some 2) = ([30], False)
   \<and> (\<exists>res. findTableRows \<lparr>headers = [''id''], rows = [[(''id'', JNum (Fin 1))]]\<rparr>
                [(''id'', OpCond ''gte'' (JNum (Fin 0)))]
                \<lparr>columns = None, limit = Some 5, offset = Some 1\<rparr> = Inr res
            \<and> fr_rows res = [] \<and> fr_count res = 0)"
proof -
  have 1: "fst (paginate [10, 20, 30 :: nat] (Some 2) (Some 7)) = []"
    using paginate_windows [where items = "[10, 20, 30 :: nat]" and off = 7 and lmt = "Some 2"]
    by simp
  have 2: "paginate [10, 20, 30 :: nat] (Some 2) (Some 1) = ([20, 30], False)"
    using paginate_windows [where items = "[10, 20, 30 :: nat]" and off = 1 and l = 2]
    by simp
  have 3: "paginate [10, 20, 30 :: nat] (Some 1) (Some 1) = ([20], True)"
    using paginate_windows [where items = "[10, 20, 30 :: nat]" and off = 1 and l = 1]
    by simp
  have 4: "paginate [10, 20, 30 :: nat] None (Some 2) = ([30], False)"
    using paginate_windows [where items = "[10, 20, 30 :: nat]" and off = 2]
    by simp
  have w: "wellTyped [(''id'', OpCond ''gte'' (JNum (Fin 0)))]
           \<and> int (length (rows \<lparr>headers = [''id''], rows = [[(''id'', JNum (Fin 1))]]\<rparr>)) \<le> 1"
    by (simp add: knownOperator_def)
  from w paginate_windows
            [where t = "\<lparr>headers = [''id''], rows = [[(''id'', JNum (Fin 1))]]\<rparr>"
               and w = "[(''id'', OpCond ''gte'' (JNum (Fin 0)))]" and off = 1
               and lmt = "Some 5" and cols = None]
  have 5: "\<exists>res. findTableRows \<lparr>headers = [''id''], rows = [[(''id'', JNum (Fin 1))]]\<rparr>
                [(''id'', OpCond ''gte'' (JNum (Fin 0)))]
                \<lparr>columns = None, limit = Some 5, offset = Some 1\<rparr> = Inr res
            \<and> fr_rows res = [] \<and> fr_count res = 0"
    by blast
  from 1 2 3 4 5 show ?thesis by blast
qed

text \<open>
  C4 as stated fails: nothing is clamped.  A limit of 0 returns every row, an offset of
  \<open>-1\<close> returns the last row where offset 0 returns all three, and a limit of \<open>-1\<close>
  drops the last row.
\<close>

theorem paginate_no_clamping_counterexample:
  "fst (paginate [1, 2, 3 :: nat] (Some 0) None) = [1, 2, 3]
   \<and> fst (paginate [1, 2, 3 :: nat] None (Some (- 1))) = [3]
   \<and> fst (paginate [1, 2, 3 :: nat] None (Some 0)) = [1, 2, 3]
   \<and> paginate [1, 2, 3 :: nat] (Some (- 1)) None = ([1, 2], True)"
  by (simp add: paginate_def slice_def)

subsection \<open>Projection\<close>











section \<open>Properties of mutations\<close>

subsection \<open>Insert\<close>

lemma set_firstSeen [simp]: "set (firstSeen xs) = set xs"
  by (induction xs rule: firstSeen.induct) auto

lemma distinct_firstSeen [simp]: "distinct (firstSeen xs)"
  by (induction xs rule: firstSeen.induct) auto

lemma firstSeen_distinct: "distinct xs \<Longrightarrow> firstSeen xs = xs"
  by (induction xs) (auto simp: removeAll_id)

lemma fold_setAdd:
  "fold setAdd ks s = s @ firstSeen (filter (\<lambda>k. k \<notin> set s) ks)"
proof (induction ks arbitrary: s)
  case Nil
  then show ?case by simp
next
  case (Cons k ks)
  show ?case
  proof (cases "k \<in> set s")
    case True
    then have "setAdd k s = s" by (simp add: setAdd_def)
    with True show ?thesis by (simp add: Cons.IH)
  next
    case False
    then have a: "setAdd k s = s @ [k]" by (simp add: setAdd_def)
    have "removeAll k (filter (\<lambda>k. k \<notin> set s) ks) = filter (\<lambda>x. x \<notin> set (s @ [k])) ks"
      by (induction ks) auto
    with False a show ?thesis by (simp add: Cons.IH)
  qed
qed

lemma newSet_firstSeen: "newSet ks = firstSeen ks"
  by (simp add: newSet_def fold_setAdd)

lemma fold_rows_setAdd:
  "fold (\<lambda>row s. fold setAdd (map fst row) s) rs s = fold setAdd (concat (map (map fst) rs)) s"
  by (induction rs arbitrary: s) simp_all

lemma allHeaders_eq:
  "fold (\<lambda>row s. fold setAdd (map fst row) s) rs (newSet hs)
     = firstSeen hs @ firstSeen (filter (\<lambda>k. k \<notin> set hs) (concat (map (map fst) rs)))"
proof -
  have "fold (\<lambda>row s. fold setAdd (map fst row) s) rs (newSet hs)
          = fold setAdd (concat (map (map fst) rs)) (newSet hs)"
    by (rule fold_rows_setAdd)
  also have "\<dots> = newSet hs @ firstSeen (filter (\<lambda>k. k \<notin> set (newSet hs)) (concat (map (map fst) rs)))"
    by (rule fold_setAdd)
  finally show ?thesis
    by (simp add: newSet_firstSeen)
qed

text \<open>
  C9.  The header line an insert writes is the existing headers (a repeated name once)
  followed by the keys of the inserted rows that are not headers, each once, in the order
  they are first met across the inserted rows; when the headers are distinct it starts
  with the header list itself.  Its names are the headers together with every key of an
  inserted row.  \<open>addedCount\<close> is the number of inserted rows, \<open>totalRows\<close> is the
  original row count plus \<open>addedCount\<close>, and that many data lines are written.
\<close>

theorem insert_headers_and_counts:
  "hd (newAoa (addTableRows t newRows))
     = map JStr (firstSeen (headers t)
                 @ firstSeen (filter (\<lambda>k. k \<notin> set (headers t)) (insertedKeys newRows)))
   \<and> (distinct (headers t) \<longrightarrow>
        hd (newAoa (addTableRows t newRows))
          = map JStr (headers t
                      @ firstSeen (filter (\<lambda>k. k \<notin> set (headers t)) (insertedKeys newRows))))
   \<and> set (hd (newAoa (addTableRows t newRows))) = JStr ` (set (headers t) \<union> set (insertedKeys newRows))
   \<and> addedCount (stats (addTableRows t newRows)) = length (insertedRows newRows)
   \<and> totalRows (stats (addTableRows t newRows))
       = length (rows t) + addedCount (stats (addTableRows t newRows))
   \<and> rowsAfter (addTableRows t newRows) = rows t @ insertedRows newRows
   \<and> length (tl (newAoa (addTableRows t newRows))) = totalRows (stats (addTableRows t newRows))"
proof -
  have r: "(case newRows of ManyRows rs \<Rightarrow> rs | OneRow r \<Rightarrow> [r]) = insertedRows newRows"
    by (simp add: insertedRows_def split: rowsArg.splits)
  show ?thesis
    by (auto simp: addTableRows_def Let_def r allHeaders_eq insertedKeys_def firstSeen_distinct)
qed

theorem insert_headers_and_counts_witness:
  "distinct (headers \<lparr>headers = [''id'', ''status''],
                      rows = [[(''id'', JNum (Fin 1)), (''status'', JStr ''Done'')]]\<rparr>)
   \<and> hd (newAoa (addTableRows
                    \<lparr>headers = [''id'', ''status''],
                     rows = [[(''id'', JNum (Fin 1)), (''status'', JStr ''Done'')]]\<rparr>
                    (ManyRows [[(''status'', JStr ''Todo''), (''owner'', JStr ''Ann'')],
                               [(''id'', JNum (Fin 3)), (''due'', JNull), (''owner'', JStr ''Bo'')]])))
       = [JStr ''id'', JStr ''status'', JStr ''owner'', JStr ''due'']"
proof -
  let ?t = "\<lparr>headers = [''id'', ''status''],
              rows = [[(''id'', JNum (Fin 1)), (''status'', JStr ''Done'')]]\<rparr>"
  let ?new = "ManyRows [[(''status'', JStr ''Todo''), (''owner'', JStr ''Ann'')],
                        [(''id'', JNum (Fin 3)), (''due'', JNull), (''owner'', JStr ''Bo'')]]"
  have d: "distinct (headers ?t)"
    by simp
  have k: "headers ?t @ firstSeen (filter (\<lambda>k. k \<notin> set (headers ?t)) (insertedKeys ?new))
             = [''id'', ''status'', ''owner'', ''due'']"
    by (simp add: insertedKeys_def insertedRows_def)
  from d insert_headers_and_counts [where t = ?t and newRows = ?new]
  have "hd (newAoa (addTableRows ?t ?new))
          = map JStr (headers ?t
                      @ firstSeen (filter (\<lambda>k. k \<notin> set (headers ?t)) (insertedKeys ?new)))"
    by blast
  with k have "hd (newAoa (addTableRows ?t ?new)) = map JStr [''id'', ''status'', ''owner'', ''due'']"
    by (simp only:)
  with d show ?thesis by simp
qed

subsection \<open>Update\<close>

lemma matcher_error_is_unknown_operator:
  "matchesCondition row w = Inl e \<Longrightarrow> \<exists>op. e = UnknownOperator op"
proof (induction w rule: wellTyped.induct)
  case 1
  then show ?case by simp
next
  case (2 column c rest)
  then show ?case by (auto split: if_splits)
next
  case (3 column op condValue rest)
  then show ?case by (auto simp: Let_def split: if_splits)
qed

lemma updateLoop_error:
  "updateLoop rs w st = Inl e \<Longrightarrow> \<exists>op. e = UnknownOperator op"
proof (induction rs)
  case Nil
  then show ?case by simp
next
  case (Cons row rs)
  then show ?case
    by (auto split: sum.splits prod.splits dest: matcher_error_is_unknown_operator)
qed

lemma updateLoop_wellTyped:
  "wellTyped w \<Longrightarrow> updateLoop rs w st = Inr (applyPair rs (w, st), matchedCount rs w)"
proof (induction rs)
  case Nil
  then show ?case by (simp add: applyPair_def matchedCount_def)
next
  case (Cons row rs)
  from Cons.prems obtain b where b: "matchesCondition row w = Inr b"
    using wellTyped_matcher_returns by blast
  with Cons show ?case
    by (simp add: applyPair_def matchedCount_def matches_def)
qed

lemma getProp_applySet_fold:
  "getProp (fold (\<lambda>(col, val) r. setProp col val r) st row) c
     = (case map_of (rev st) c of Some v \<Rightarrow> v | None \<Rightarrow> getProp row c)"
proof (induction st arbitrary: row)
  case Nil
  then show ?case by simp
next
  case (Cons p st)
  obtain k v where p: "p = (k, v)" by (cases p)
  show ?case
    by (auto simp: p Cons.IH getProp_setProp map_add_def split: option.splits)
qed

lemma getProp_applySet:
  "distinct (map fst st) \<Longrightarrow> (c, v) \<in> set st \<Longrightarrow> getProp (applySet st row) c = v"
proof -
  assume d: "distinct (map fst st)" and m: "(c, v) \<in> set st"
  then have "map_of (rev st) c = Some v"
    by (simp add: distinct_rev rev_map [symmetric])
  then show ?thesis
    by (simp add: applySet_def getProp_applySet_fold)
qed


text \<open>
  C2.  \<open>updateTableRows\<close> has no column check: it never ends with a column-not-found
  error, and with a condition of the admitted operators it returns.  The header line it
  writes is the header list of the table, whatever the columns of \<open>set\<close> are; every row
  that matches gets the values of \<open>set\<close> in its cell map, a column that is no header
  included, and the count is the number of matching rows.
\<close>

theorem update_accepts_unknown_columns:
  "updateTableRows t w st \<noteq> Inl (ColumnNotFound col hs)
   \<and> (wellTyped w \<longrightarrow>
        (\<exists>res. updateTableRows t w st = Inr res
           \<and> hd (newAoa res) = map JStr (headers t)
           \<and> rowsAfter res = map (\<lambda>row. if matches row w then applySet st row else row) (rows t)
           \<and> updatedCount (stats res) = matchedCount (rows t) w))
   \<and> (distinct (map fst st) \<and> (c, v) \<in> set st \<longrightarrow> getProp (applySet st row) c = v)"
proof (intro conjI impI)
  show "updateTableRows t w st \<noteq> Inl (ColumnNotFound col hs)"
    by (auto simp: updateTableRows_def split: sum.splits prod.splits dest: updateLoop_error)
next
  assume "wellTyped w"
  then show "\<exists>res. updateTableRows t w st = Inr res
           \<and> hd (newAoa res) = map JStr (headers t)
           \<and> rowsAfter res = map (\<lambda>row. if matches row w then applySet st row else row) (rows t)
           \<and> updatedCount (stats res) = matchedCount (rows t) w"
    by (simp add: updateTableRows_def updateLoop_wellTyped toAoa_def applyPair_def)
next
  assume "distinct (map fst st) \<and> (c, v) \<in> set st"
  then show "getProp (applySet st row) c = v"
    using getProp_applySet by blast
qed

theorem update_accepts_unknown_columns_witness:
  "wellTyped [(''id'', Lit (JNum (Fin 1)))]
   \<and> (\<exists>res. updateTableRows
               \<lparr>headers = [''id''], rows = [[(''id'', JNum (Fin 1))], [(''id'', JNum (Fin 2))]]\<rparr>
               [(''id'', Lit (JNum (Fin 1)))] [(''note'', JStr ''x'')] = Inr res
          \<and> hd (newAoa res) = [JStr ''id'']
          \<and> rowsAfter res = [[(''id'', JNum (Fin 1)), (''note'', JStr ''x'')], [(''id'', JNum (Fin 2))]]
          \<and> updatedCount (stats res) = 1)
   \<and> getProp (applySet [(''note'', JStr ''x'')] [(''id'', JNum (Fin 1))]) ''note'' = JStr ''x''"
proof -
  let ?t = "\<lparr>headers = [''id''], rows = [[(''id'', JNum (Fin 1))], [(''id'', JNum (Fin 2))]]\<rparr>"
  let ?w = "[(''id'', Lit (JNum (Fin 1)))]"
  let ?st = "[(''note'', JStr ''x'')]"
  have w: "wellTyped ?w"
    by simp
  have s: "distinct (map fst ?st) \<and> (''note'', JStr ''x'') \<in> set ?st"
    by simp
  have m: "matches [(''id'', JNum (Fin 1))] ?w" "\<not> matches [(''id'', JNum (Fin 2))] ?w"
    by (simp_all add: matches_def strictEq_def getProp_def)
  have a: "applySet ?st [(''id'', JNum (Fin 1))] = [(''id'', JNum (Fin 1)), (''note'', JStr ''x'')]"
    by (simp add: applySet_def setProp_def arrayIndex_def digitVal_def)
  note T = update_accepts_unknown_columns
             [where t = ?t and w = ?w and st = ?st and c = "''note''" and v = "JStr ''x''"
                and row = "[(''id'', JNum (Fin 1))]"]
  from T w obtain res where r: "updateTableRows ?t ?w ?st = Inr res"
      "hd (newAoa res) = map JStr (headers ?t)"
      "rowsAfter res = map (\<lambda>row. if matches row ?w then applySet ?st row else row) (rows ?t)"
      "updatedCount (stats res) = matchedCount (rows ?t) ?w"
    by blast
  from r(2) have 1: "hd (newAoa res) = [JStr ''id'']"
    by simp
  from r(3) m a have 2: "rowsAfter res
      = [[(''id'', JNum (Fin 1)), (''note'', JStr ''x'')], [(''id'', JNum (Fin 2))]]"
    by simp
  from r(4) m have 3: "updatedCount (stats res) = 1"
    by (simp add: matchedCount_def)
  from T s have 4: "getProp (applySet ?st [(''id'', JNum (Fin 1))]) ''note'' = JStr ''x''"
    by blast
  from w r(1) 1 2 3 4 show ?thesis by blast
qed

subsection \<open>Batch update\<close>




section \<open>Properties of color inference\<close>

subsection \<open>The grouping key\<close>



subsection \<open>The first color of each bucket\<close>


lemma bucketFirsts_Nil [simp]: "bucketFirsts [] = []"
  by (simp add: bucketFirsts_def)




subsection \<open>The histogram\<close>






subsection \<open>The scan for the largest bucket\<close>










subsection \<open>The tally of values and colors\<close>









subsection \<open>The pass over the distinct values\<close>







subsection \<open>The dominant color of the description\<close>

lemma dominantOf_empty: "dominantOf [] = None"
  by (simp add: dominantOf_def)

lemma dominantOf_exists:
  assumes "cols \<noteq> []"
  shows "\<exists>d. dominantOf cols = Some d \<and> d \<in> set cols
             \<and> (\<forall>c \<in> set cols. bucketCount cols c \<le> bucketCount cols d)"
proof -
  have "finite (bucketCount cols ` set cols)" "bucketCount cols ` set cols \<noteq> {}"
    using assms by simp_all
  then have "Max (bucketCount cols ` set cols) \<in> bucketCount cols ` set cols"
    by (rule Max_in)
  then obtain f where f: "f \<in> set cols" "bucketCount cols f = Max (bucketCount cols ` set cols)"
    by (metis imageE)
  have "\<forall>c \<in> set cols. bucketCount cols c \<le> bucketCount cols f"
    using f(2) by (simp add: Max_ge)
  with f(1) have "dominantOf cols \<noteq> None"
    unfolding dominantOf_def find_None_iff by blast
  then obtain d where d: "dominantOf cols = Some d"
    by blast
  then have "find (\<lambda>c. \<forall>c' \<in> set cols. bucketCount cols c' \<le> bucketCount cols c) cols = Some d"
    by (simp only: dominantOf_def)
  then have "(\<forall>c' \<in> set cols. bucketCount cols c' \<le> bucketCount cols d) \<and> d \<in> set cols"
    by (rule find_SomeD)
  with d show ?thesis by blast
qed


text \<open>
  The dominant color opens its bucket, every color seen before it lies in a strictly
  smaller bucket, and no bucket is larger than its own: it is the first-seen color of
  the first-met largest bucket.
\<close>

lemma dominantOf_first_largest:
  assumes "dominantOf cols = Some d"
  shows "\<exists>pre post. cols = pre @ d # post
           \<and> (\<forall>c \<in> set pre. bucketCount cols c < bucketCount cols d)
           \<and> (\<forall>c \<in> set pre. quantize c \<noteq> quantize d)
           \<and> (\<forall>c \<in> set cols. bucketCount cols c \<le> bucketCount cols d)"
proof -
  let ?P = "\<lambda>c. \<forall>c' \<in> set cols. bucketCount cols c' \<le> bucketCount cols c"
  from assms have "find ?P cols = Some d"
    by (simp only: dominantOf_def)
  then obtain i where i: "i < length cols" "?P (cols ! i)" "d = cols ! i" "\<forall>j < i. \<not> ?P (cols ! j)"
    unfolding find_Some_iff by blast
  define pre where "pre = take i cols"
  define post where "post = drop (Suc i) cols"
  have split: "cols = pre @ d # post"
    using i(1,3) by (simp add: pre_def post_def id_take_nth_drop)
  have top: "\<forall>c \<in> set cols. bucketCount cols c \<le> bucketCount cols d"
    using i(2,3) by simp
  have low: "bucketCount cols c < bucketCount cols d" if c: "c \<in> set pre" for c
  proof -
    from c obtain j where j: "j < i" "c = cols ! j"
      using i(1) by (auto simp: pre_def in_set_conv_nth)
    with i(4) have "\<not> ?P c" by simp
    then obtain c' where "c' \<in> set cols" "bucketCount cols c < bucketCount cols c'"
      by (auto simp: not_le)
    with top show ?thesis
      by (meson less_le_trans)
  qed
  have "quantize c \<noteq> quantize d" if c: "c \<in> set pre" for c
  proof
    assume "quantize c = quantize d"
    then have "bucketCount cols c = bucketCount cols d"
      by (simp add: bucketCount_def)
    with low [OF c] show False by simp
  qed
  with split top low show ?thesis by blast
qed

text \<open>
  Two buckets of the same size: the one met first wins, and its color is the first one
  seen in it, not the rounded one.
\<close>

lemma dominantOf_tie:
  "dominantOf [RGBColor 12 0 0, RGBColor 200 0 0, RGBColor 8 0 0, RGBColor 199 0 0]
     = Some (RGBColor 12 0 0)"
  by (simp add: dominantOf_def bucketCount_def quantize_def)

text \<open>Every sequence of values is the column of some table.\<close>

lemma values_as_column:
  "map (cellString column) (map (\<lambda>v. [(column, JStr v)]) vs) = vs"
  by (induction vs) (simp_all add: cellString_def getProp_def nullish_def)

subsection \<open>The result\<close>



section \<open>The cell-addressed write path, compared\<close>

text \<open>
  The variants that write through cell assignments are not the table operations above,
  and differ from them in two ways.
\<close>

lemma indexOf_None: "(indexOf hs x = None) = (x \<notin> set hs)"
  by (induction hs) auto

lemma colIndicesOf_missing:
  "\<exists>c \<in> set cols. c \<notin> set hs \<Longrightarrow>
   \<exists>col. col \<in> set cols \<and> col \<notin> set hs \<and> colIndicesOf hs cols = Inl (ColumnNotFound col hs)"
proof (induction cols)
  case Nil
  then show ?case by simp
next
  case (Cons c cols)
  show ?case
  proof (cases "c \<in> set hs")
    case True
    then obtain idx where i: "indexOf hs c = Some idx"
      using indexOf_None [of hs c] by auto
    from True Cons.prems have "\<exists>c \<in> set cols. c \<notin> set hs" by auto
    with Cons.IH obtain col where "col \<in> set cols" "col \<notin> set hs"
        "colIndicesOf hs cols = Inl (ColumnNotFound col hs)"
      by blast
    with i show ?thesis by auto
  next
    case False
    then have "indexOf hs c = None" by (simp add: indexOf_None)
    with False show ?thesis by auto
  qed
qed

text \<open>
  A column of \<open>set\<close> that is no header ends the cell-addressed update with a
  column-not-found error, before any row is tried.
\<close>

lemma cell_update_rejects_unknown_column:
  assumes "\<exists>c \<in> fst ` set st. c \<notin> set (headers t)"
  shows "\<exists>col. col \<notin> set (headers t)
              \<and> updateRowsViaAppleScript t w st = Inl (ColumnNotFound col (headers t))"
proof -
  from assms have "\<exists>c \<in> set (map fst st). c \<notin> set (headers t)" by simp
  then obtain col where "col \<notin> set (headers t)"
      "colIndicesOf (headers t) (map fst st) = Inl (ColumnNotFound col (headers t))"
    using colIndicesOf_missing by blast
  then show ?thesis
    by (auto simp: updateRowsViaAppleScript_def)
qed

text \<open>
  With every column of every \<open>set\<close> among the headers and conditions of the admitted
  operators, the cell-addressed batch returns, and each count in \<open>details\<close> is taken on
  the rows as loaded.
\<close>

lemma colIndicesOf_present:
  "set cols \<subseteq> set hs \<Longrightarrow> \<exists>ci. colIndicesOf hs cols = Inr ci"
proof (induction cols)
  case Nil
  then show ?case by simp
next
  case (Cons c cols)
  then obtain idx where "indexOf hs c = Some idx"
    using indexOf_None [of hs c] by auto
  moreover from Cons obtain ci where "colIndicesOf hs cols = Inr ci"
    by auto
  ultimately show ?case by simp
qed

lemma cellPass_count:
  "wellTyped w \<Longrightarrow> \<exists>us. cellPass i rs w st ci = Inr (us, matchedCount rs w)"
proof (induction rs arbitrary: i)
  case Nil
  then show ?case by (simp add: matchedCount_def)
next
  case (Cons row rs)
  from Cons.prems obtain b where b: "matchesCondition row w = Inr b"
    using wellTyped_matcher_returns by blast
  from Cons obtain us where "cellPass (i + 1) rs w st ci = Inr (us, matchedCount rs w)"
    by blast
  with b show ?case
    by (simp add: matchedCount_def matches_def)
qed

lemma cellBatch_counts:
  "\<forall>p \<in> set ups. wellTyped (fst p) \<Longrightarrow>
   \<exists>us. cellBatch ups rs ci acc tot ds
          = Inr (us, tot + sum_list (map (\<lambda>p. matchedCount rs (fst p)) ups),
                 ds @ map (\<lambda>p. (fst p, matchedCount rs (fst p))) ups)"
proof (induction ups arbitrary: acc tot ds)
  case Nil
  then show ?case by simp
next
  case (Cons p ups)
  obtain w st where p: "p = (w, st)" by (cases p)
  with Cons.prems have "wellTyped w" by simp
  then obtain us where u: "cellPass 0 rs w st ci = Inr (us, matchedCount rs w)"
    using cellPass_count by blast
  from Cons.prems have "\<forall>p \<in> set ups. wellTyped (fst p)" by simp
  from Cons.IH [OF this, of "acc @ us" "tot + matchedCount rs w" "ds @ [(w, matchedCount rs w)]"]
  show ?case
    by (auto simp: p u)
qed

lemma cell_batch_counts_on_snapshot:
  assumes "\<forall>p \<in> set ups. wellTyped (fst p)"
    and "\<forall>p \<in> set ups. fst ` set (snd p) \<subseteq> set (headers t)"
  shows "\<exists>us. batchUpdateRowsViaAppleScript t ups
           = Inr (us, \<lparr>updatedCount = sum_list (map (\<lambda>p. matchedCount (rows t) (fst p)) ups),
                       details = map (\<lambda>p. (fst p, matchedCount (rows t) (fst p))) ups\<rparr>)"
proof -
  define allCols where "allCols = fold (\<lambda>(w, st) s. fold setAdd (map fst st) s) ups []"
  have sub: "set (fold (\<lambda>(w, st) s. fold setAdd (map fst st) s) xs s0) \<subseteq> set (headers t)"
    if "\<forall>p \<in> set xs. fst ` set (snd p) \<subseteq> set (headers t)" "set s0 \<subseteq> set (headers t)"
    for xs s0
    using that
  proof (induction xs arbitrary: s0)
    case Nil
    then show ?case by simp
  next
    case (Cons x xs)
    obtain w st where x: "x = (w, st)" by (cases x)
    have "set (fold setAdd (map fst st) s0) \<subseteq> set (headers t)"
      using Cons.prems by (auto simp: x fold_setAdd)
    with Cons show ?case by (simp add: x)
  qed
  have "set allCols \<subseteq> set (headers t)"
    unfolding allCols_def using assms(2) by (intro sub) simp_all
  then obtain ci where ci: "colIndicesOf (headers t) allCols = Inr ci"
    using colIndicesOf_present by blast
  from cellBatch_counts [OF assms(1), of "rows t" ci "[]" 0 "[]"]
  obtain us where "cellBatch ups (rows t) ci [] 0 []
          = Inr (us, sum_list (map (\<lambda>p. matchedCount (rows t) (fst p)) ups),
                 map (\<lambda>p. (fst p, matchedCount (rows t) (fst p))) ups)"
    by auto
  with ci show ?thesis
    by (simp add: batchUpdateRowsViaAppleScript_def allCols_def [symmetric])
qed

text \<open>
  The cell-addressed batch never changes the rows it loaded, so every pair is tried on
  the rows as read: on the table and the batch for which the in-memory fold counts 1 and
  2 and ends with \<open>C\<close> in both rows, it counts 1 and 1 and writes \<open>B\<close> and \<open>C\<close>.
\<close>

lemma cell_batch_reads_snapshot:
  "batchUpdateRowsViaAppleScript
     \<lparr>headers = [''id'', ''s''],
      rows = [[(''id'', JNum (Fin 1)), (''s'', JStr ''A'')],
              [(''id'', JNum (Fin 2)), (''s'', JStr ''B'')]]\<rparr>
     [([(''s'', Lit (JStr ''A''))], [(''s'', JStr ''B'')]),
      ([(''s'', Lit (JStr ''B''))], [(''s'', JStr ''C'')])]
   = Inr ([\<lparr>rowIndex = 2, colIndex = 2, cellValue = JStr ''B''\<rparr>,
           \<lparr>rowIndex = 3, colIndex = 2, cellValue = JStr ''C''\<rparr>],
          \<lparr>updatedCount = 2,
           details = [([(''s'', Lit (JStr ''A''))], 1), ([(''s'', Lit (JStr ''B''))], 1)]\<rparr>)"
  by (simp add: batchUpdateRowsViaAppleScript_def setAdd_def strictEq_def getProp_def)

end
